theory Spec2Isabelle
  imports Complex_Main
begin

section \<open>The notebook \<open>Integration.ipynb\<close>\<close>

text \<open>
  The notebook has four code cells with code (a fifth is empty): the imports, the
  definitions of \<open>lb\<close>, \<open>ub\<close>, \<open>nplots\<close>, \<open>fct\<close> and \<open>Fct\<close>, the plot of \<open>fct\<close> over a
  grid, and one call of the library's adaptive quadrature whose result is printed.
  Python floats are modelled by the real numbers they approximate: rounding is not
  modelled, overflow is (in \<open>py_pow\<close>). What Python raises is a value of type \<open>exn\<close>.
\<close>

subsection \<open>Exceptions and numbers\<close>

datatype exn =
    NameError string
  | ValueError string
  | OverflowError
  | LibraryError string

text \<open>A Python number: an unbounded \<open>int\<close> or a \<open>float\<close>.\<close>

datatype pynum = PyInt int | PyFloat real

definition num_val :: "pynum \<Rightarrow> real" where
  "num_val v = (case v of PyInt n \<Rightarrow> of_int n | PyFloat x \<Rightarrow> x)"



definition pow_overflows :: "real \<Rightarrow> bool" where
  "pow_overflows y = (2 ^ 1024 - 2 ^ 970 \<le> \<bar>y\<bar>)"

text \<open>
  Python's \<open>x ** n\<close> for a literal \<open>n \<ge> 0\<close>: exact on \<open>int\<close>; on \<open>float\<close> the power, or
  \<open>OverflowError\<close> when it leaves the double range.
\<close>

definition py_pow :: "pynum \<Rightarrow> nat \<Rightarrow> exn + pynum" where
  "py_pow x n =
     (case x of
        PyInt a \<Rightarrow> Inr (PyInt (a ^ n))
      | PyFloat a \<Rightarrow>
          if pow_overflows (a ^ n) then Inl OverflowError else Inr (PyFloat (a ^ n)))"

subsection \<open>The scalar function\<close>

text \<open>
  \<^verbatim>\<open>
  def fct(x):
      # simple polynomial
      output = x**2
      return output
  \<close>
  \<open>fct\<close> is the function on the reals; \<open>fct_py\<close> is the same body under Python's
  arithmetic, where the power can raise.
\<close>

definition fct :: "real \<Rightarrow> real" where
  "fct x = (let output = x ^ 2 in output)"

definition fct_py :: "pynum \<Rightarrow> exn + pynum" where
  "fct_py x = (case py_pow x 2 of Inl e \<Rightarrow> Inl e | Inr output \<Rightarrow> Inr output)"

subsection \<open>The numpy functions the notebook calls\<close>

text \<open>
  \<open>np.linspace(start, stop, num)\<close> with the default \<open>endpoint=True\<close>, as numpy computes
  it: \<open>num\<close> samples \<open>i * step + start\<close> with \<open>step = (stop - start) / (num - 1)\<close>, the
  last one overwritten by \<open>stop\<close>; a negative \<open>num\<close> raises \<open>ValueError\<close>.
\<close>

definition linspace :: "real \<Rightarrow> real \<Rightarrow> int \<Rightarrow> exn + real list" where
  "linspace start stop num =
     (if num < 0 then Inl (ValueError ''Number of samples must be non-negative'')
      else
        let n = nat num;
            dv = num - 1;
            delta = stop - start;
            y = (if dv > 0
                 then map (\<lambda>i. real i * (delta / of_int dv) + start) [0..<n]
                 else map (\<lambda>i. real i * delta + start) [0..<n])
        in Inr (if num > 1 then y[n - 1 := stop] else y))"

text \<open>
  \<open>np.vectorize(pyfunc)\<close> called on an array: \<open>pyfunc\<close> applied to every element; an
  array of size 0 raises \<open>ValueError\<close> (no \<open>otypes\<close> is given).
\<close>

definition vectorize :: "(real \<Rightarrow> real) \<Rightarrow> real list \<Rightarrow> exn + real list" where
  "vectorize pyfunc xs =
     (if xs = [] then Inl (ValueError ''cannot call vectorize on size 0 inputs'')
      else Inr (map pyfunc xs))"

definition Fct :: "real list \<Rightarrow> exn + real list" where
  "Fct = vectorize fct"

subsection \<open>The libraries with effects\<close>

text \<open>
  A call of the plotting library or of \<open>scipy.integrate.quad\<close>. The notebook records
  each call in \<open>calls\<close> when it makes it.
\<close>

datatype call =
    PltFigure
  | PltPlot "real list" "real list"
  | PltXlabel string
  | PltYlabel string
  | PltShow
  | Quad "real \<Rightarrow> real" real real

text \<open>An object a plotting call returns (a figure, a list of lines, a label).\<close>

datatype pobj = PObj nat

text \<open>
  What the libraries do is a parameter: a plotting call returns an object or raises;
  \<open>quad\<close> returns the pair (value, estimated absolute error) or raises.
\<close>

record libs =
  plt :: "call \<Rightarrow> exn + pobj"
  quad :: "(real \<Rightarrow> real) \<Rightarrow> real \<Rightarrow> real \<Rightarrow> exn + real \<times> real"

subsection \<open>The namespace and the statements\<close>

text \<open>
  The global names of the notebook; \<open>None\<close> is an unbound name. \<open>imported\<close> holds the
  names the import statements bind.
\<close>

record state =
  imported :: "string list"
  g_lb :: "int option"
  g_ub :: "int option"
  g_nplots :: "int option"
  g_fct :: "(real \<Rightarrow> real) option"
  g_Fct :: "(real list \<Rightarrow> exn + real list) option"
  g_X :: "real list option"
  g_reference :: "real option"
  calls :: "call list"
  stdout :: "(string \<times> real) list"

definition fresh :: state where
  "fresh = \<lparr>imported = [], g_lb = None, g_ub = None, g_nplots = None, g_fct = None,
            g_Fct = None, g_X = None, g_reference = None, calls = [], stdout = []\<rparr>"

type_synonym stmt = "libs \<Rightarrow> state \<Rightarrow> exn option \<times> state"

text \<open>
  Reading a name raises \<open>NameError\<close> when it is unbound: \<open>lookup\<close> for a name the
  notebook assigns, \<open>imported_name\<close> for a name an import binds.
\<close>

definition lookup :: "string \<Rightarrow> 'a option \<Rightarrow> exn + 'a" where
  "lookup n v = (case v of None \<Rightarrow> Inl (NameError n) | Some a \<Rightarrow> Inr a)"

definition imported_name :: "state \<Rightarrow> string \<Rightarrow> exn + unit" where
  "imported_name s n = (if n \<in> set (imported s) then Inr () else Inl (NameError n))"

text \<open>
  No statement of the notebook stands in a \<open>try\<close>: when an evaluation raises, the
  statement ends with that exception, in the state reached so far.
\<close>

definition attempt ::
  "state \<Rightarrow> exn + 'a \<Rightarrow> ('a \<Rightarrow> exn option \<times> state) \<Rightarrow> exn option \<times> state" where
  "attempt s r k = (case r of Inl e \<Rightarrow> (Some e, s) | Inr a \<Rightarrow> k a)"

definition plt_invoke :: "libs \<Rightarrow> call \<Rightarrow> state \<Rightarrow> exn option \<times> state" where
  "plt_invoke L c s =
     (let s' = s\<lparr>calls := calls s @ [c]\<rparr>
      in attempt s' (plt L c) (\<lambda>_. (None, s')))"

text \<open>
  Cell 1:
  \<^verbatim>\<open>
  import matplotlib
  import matplotlib.pyplot as plt
  import numpy as np
  import math
  from math import sin, cos, pi
  from scipy.integrate import quad
  \<close>
  The libraries are taken to be installed: an import binds its names.
\<close>

definition s_import :: "string list \<Rightarrow> stmt" where
  "s_import names L s = (None, s\<lparr>imported := imported s @ names\<rparr>)"

text \<open>
  Cell 2:
  \<^verbatim>\<open>
  lb = 0 # lower bound for the integration
  ub = 1 # upper bound for the integration
  nplots = 100 # number of points for plots
  def fct(x): ...
  Fct = np.vectorize(fct)
  \<close>
\<close>

definition s_lb :: stmt where
  "s_lb L s = (None, s\<lparr>g_lb := Some 0\<rparr>)"

definition s_ub :: stmt where
  "s_ub L s = (None, s\<lparr>g_ub := Some 1\<rparr>)"

definition s_nplots :: stmt where
  "s_nplots L s = (None, s\<lparr>g_nplots := Some 100\<rparr>)"

definition s_def_fct :: stmt where
  "s_def_fct L s = (None, s\<lparr>g_fct := Some fct\<rparr>)"

definition s_Fct :: stmt where
  "s_Fct L s =
     attempt s (imported_name s ''np'') (\<lambda>_.
     attempt s (lookup ''fct'' (g_fct s)) (\<lambda>f.
     (None, s\<lparr>g_Fct := Some (vectorize f)\<rparr>)))"

text \<open>
  Cell 3:
  \<^verbatim>\<open>
  plt.figure()
  X = np.linspace(lb,ub,nplots)
  plt.plot(X,Fct(X))
  plt.xlabel('argument')
  plt.ylabel('value of the function')
  plt.show()
  \<close>
\<close>

definition s_figure :: stmt where
  "s_figure L s = attempt s (imported_name s ''plt'') (\<lambda>_. plt_invoke L PltFigure s)"

definition s_X :: stmt where
  "s_X L s =
     attempt s (imported_name s ''np'') (\<lambda>_.
     attempt s (lookup ''lb'' (g_lb s)) (\<lambda>a.
     attempt s (lookup ''ub'' (g_ub s)) (\<lambda>b.
     attempt s (lookup ''nplots'' (g_nplots s)) (\<lambda>n.
     attempt s (linspace (of_int a) (of_int b) n) (\<lambda>xs.
     (None, s\<lparr>g_X := Some xs\<rparr>))))))"

definition s_plot :: stmt where
  "s_plot L s =
     attempt s (imported_name s ''plt'') (\<lambda>_.
     attempt s (lookup ''X'' (g_X s)) (\<lambda>xs.
     attempt s (lookup ''Fct'' (g_Fct s)) (\<lambda>F.
     attempt s (lookup ''X'' (g_X s)) (\<lambda>arg.
     attempt s (F arg) (\<lambda>ys.
     plt_invoke L (PltPlot xs ys) s)))))"

definition s_xlabel :: stmt where
  "s_xlabel L s =
     attempt s (imported_name s ''plt'') (\<lambda>_. plt_invoke L (PltXlabel ''argument'') s)"

definition s_ylabel :: stmt where
  "s_ylabel L s =
     attempt s (imported_name s ''plt'') (\<lambda>_.
     plt_invoke L (PltYlabel ''value of the function'') s)"

definition s_show :: stmt where
  "s_show L s = attempt s (imported_name s ''plt'') (\<lambda>_. plt_invoke L PltShow s)"

text \<open>
  Cell 4:
  \<^verbatim>\<open>
  reference = quad(fct,lb,ub)[0]
  print("Integral by reference method:",reference)
  \<close>
\<close>

definition s_reference :: stmt where
  "s_reference L s =
     attempt s (imported_name s ''quad'') (\<lambda>_.
     attempt s (lookup ''fct'' (g_fct s)) (\<lambda>f.
     attempt s (lookup ''lb'' (g_lb s)) (\<lambda>a.
     attempt s (lookup ''ub'' (g_ub s)) (\<lambda>b.
     let s' = s\<lparr>calls := calls s @ [Quad f (of_int a) (of_int b)]\<rparr>
     in attempt s' (quad L f (of_int a) (of_int b)) (\<lambda>r.
        (None, s'\<lparr>g_reference := Some (fst r)\<rparr>))))))"

definition s_print :: stmt where
  "s_print L s =
     attempt s (lookup ''reference'' (g_reference s)) (\<lambda>r.
     (None, s\<lparr>stdout := stdout s @ [(''Integral by reference method:'', r)]\<rparr>))"

subsection \<open>Cells and runs\<close>

text \<open>The form of a statement: what it binds.\<close>

datatype form = Import "string list" | Assign string | Def string | Expr

definition cell1 :: "(form \<times> stmt) list" where
  "cell1 =
     [(Import [''matplotlib''], s_import [''matplotlib'']),
      (Import [''plt''], s_import [''plt'']),
      (Import [''np''], s_import [''np'']),
      (Import [''math''], s_import [''math'']),
      (Import [''sin'', ''cos'', ''pi''], s_import [''sin'', ''cos'', ''pi'']),
      (Import [''quad''], s_import [''quad''])]"

definition cell2 :: "(form \<times> stmt) list" where
  "cell2 =
     [(Assign ''lb'', s_lb),
      (Assign ''ub'', s_ub),
      (Assign ''nplots'', s_nplots),
      (Def ''fct'', s_def_fct),
      (Assign ''Fct'', s_Fct)]"

definition cell3 :: "(form \<times> stmt) list" where
  "cell3 =
     [(Expr, s_figure),
      (Assign ''X'', s_X),
      (Expr, s_plot),
      (Expr, s_xlabel),
      (Expr, s_ylabel),
      (Expr, s_show)]"

definition cell4 :: "(form \<times> stmt) list" where
  "cell4 =
     [(Assign ''reference'', s_reference),
      (Expr, s_print)]"

text \<open>Cell 5 is empty.\<close>

definition cell5 :: "(form \<times> stmt) list" where
  "cell5 = []"

definition notebook :: "(form \<times> stmt) list list" where
  "notebook = [cell1, cell2, cell3, cell4, cell5]"

text \<open>Statements run in order; the first exception ends the run.\<close>

fun exec :: "libs \<Rightarrow> stmt list \<Rightarrow> state \<Rightarrow> exn option \<times> state" where
  "exec L [] s = (None, s)"
| "exec L (st # sts) s =
     (case st L s of
        (Some e, s') \<Rightarrow> (Some e, s')
      | (None, s') \<Rightarrow> exec L sts s')"

definition run_cell :: "libs \<Rightarrow> (form \<times> stmt) list \<Rightarrow> state \<Rightarrow> exn option \<times> state" where
  "run_cell L c s = exec L (map snd c) s"

definition run_all :: "libs \<Rightarrow> state \<Rightarrow> exn option \<times> state" where
  "run_all L s = exec L (map snd (concat notebook)) s"

text \<open>The library calls a run has made, what it has printed, and the values it has plotted.\<close>

definition new_calls :: "libs \<Rightarrow> state \<Rightarrow> call list" where
  "new_calls L s = drop (length (calls s)) (calls (snd (run_all L s)))"

definition printed :: "libs \<Rightarrow> state \<Rightarrow> (string \<times> real) list" where
  "printed L s = drop (length (stdout s)) (stdout (snd (run_all L s)))"

fun plotted :: "call list \<Rightarrow> real list" where
  "plotted [] = []"
| "plotted (PltPlot xs ys # cs) = ys @ plotted cs"
| "plotted (c # cs) = plotted cs"

fun bound_names :: "form list \<Rightarrow> string list" where
  "bound_names [] = []"
| "bound_names (Import ns # fs) = ns @ bound_names fs"
| "bound_names (Assign n # fs) = n # bound_names fs"
| "bound_names (Def n # fs) = n # bound_names fs"
| "bound_names (Expr # fs) = bound_names fs"



subsection \<open>The library calls of a run, one after the other\<close>

text \<open>
  The exception a library call raises, if any; and what a program does that makes the
  calls \<open>cs\<close> in order and handles no exception: it ends at the first call that
  raises, with that exception. The run of the notebook is compared with this below.
\<close>

fun is_quad :: "call \<Rightarrow> bool" where
  "is_quad (Quad f a b) = True"
| "is_quad c = False"

definition raised :: "libs \<Rightarrow> call \<Rightarrow> exn option" where
  "raised L c =
     (case c of
        Quad f a b \<Rightarrow> (case quad L f a b of Inl e \<Rightarrow> Some e | Inr _ \<Rightarrow> None)
      | _ \<Rightarrow> (case plt L c of Inl e \<Rightarrow> Some e | Inr _ \<Rightarrow> None))"

fun lib_run :: "libs \<Rightarrow> call list \<Rightarrow> exn option \<times> call list" where
  "lib_run L [] = (None, [])"
| "lib_run L (c # cs) =
     (case raised L c of
        Some e \<Rightarrow> (Some e, [c])
      | None \<Rightarrow> (fst (lib_run L cs), c # snd (lib_run L cs)))"

definition program_calls :: "real list \<Rightarrow> call list" where
  "program_calls X =
     [PltFigure, PltPlot X (map fct X), PltXlabel ''argument'',
      PltYlabel ''value of the function'', PltShow, Quad fct 0 1]"

text \<open>The state after cells 1 and 2, and the value cell 4 prints when the run gets there.\<close>

definition all_names :: "string list" where
  "all_names = [''matplotlib'', ''plt'', ''np'', ''math'', ''sin'', ''cos'', ''pi'', ''quad'']"

definition after2 :: "state \<Rightarrow> state" where
  "after2 s = s\<lparr>imported := imported s @ all_names,
     g_lb := Some 0, g_ub := Some 1, g_nplots := Some 100,
     g_fct := Some fct, g_Fct := Some Fct\<rparr>"

definition completed :: "libs \<Rightarrow> real list \<Rightarrow> real option" where
  "completed L X =
     (if fst (lib_run L (take 5 (program_calls X))) = None
      then (case quad L fct 0 1 of Inr r \<Rightarrow> Some (fst r) | Inl _ \<Rightarrow> None)
      else None)"

text \<open>The names cell 1 and cell 2 bind have in \<open>s'\<close> the values they have in \<open>s\<close>.\<close>

definition keeps_definitions :: "state \<Rightarrow> state \<Rightarrow> bool" where
  "keeps_definitions s s' =
     (imported s' = imported s \<and> g_lb s' = g_lb s \<and> g_ub s' = g_ub s \<and>
      g_nplots s' = g_nplots s \<and> g_fct s' = g_fct s \<and> g_Fct s' = g_Fct s)"

section \<open>Properties\<close>

subsection \<open>The function and its antiderivative\<close>

lemma fct_antiderivative: "((\<lambda>x. x ^ 3 / 3) has_real_derivative fct t) (at t)"
  by (auto intro!: derivative_eq_intros simp add: fct_def)

text \<open>
  Every antiderivative \<open>G\<close> of \<open>fct\<close> gives the same value \<open>G ub - G lb\<close>, the integral of
  \<open>fct\<close> over \<open>[lb, ub]\<close>: it is \<open>ub^3 / 3 - lb^3 / 3\<close>, and \<open>1 / 3\<close> over \<open>[0, 1]\<close>.
\<close>

lemma newton_integral_fct:
  assumes der: "\<forall>t. (G has_real_derivative fct t) (at t)"
  shows "G ub - G lb = ub ^ 3 / 3 - lb ^ 3 / 3"
proof -
  have "\<forall>t. ((\<lambda>x. G x - x ^ 3 / 3) has_real_derivative 0) (at t)"
  proof
    fix t
    have "((\<lambda>x. G x - x ^ 3 / 3) has_real_derivative fct t - fct t) (at t)"
      by (rule DERIV_diff) (use der fct_antiderivative in blast)+
    then show "((\<lambda>x. G x - x ^ 3 / 3) has_real_derivative 0) (at t)" by simp
  qed
  then have "G ub - ub ^ 3 / 3 = G lb - lb ^ 3 / 3"
    by (rule DERIV_isconst_all)
  then show ?thesis by simp
qed

lemma integral_unit_interval:
  "\<forall>t. (G has_real_derivative fct t) (at t) \<Longrightarrow> G 1 - G 0 = 1 / 3"
  using newton_integral_fct [of G 1 0] by simp

lemma fct_py_refines: "fct_py v = Inr w \<Longrightarrow> num_val w = fct (num_val v)"
  by (cases v) (auto simp add: fct_py_def py_pow_def fct_def num_val_def split: if_splits)

lemma fct_py_unit_interval:
  "\<bar>x\<bar> \<le> 1 \<Longrightarrow> fct_py (PyFloat x) = Inr (PyFloat (fct x))"
proof -
  assume x: "\<bar>x\<bar> \<le> 1"
  have "\<bar>x ^ 2\<bar> \<le> 1" using x by (simp add: abs_square_le_1)
  moreover have "(1::real) < 2 ^ 1024 - 2 ^ 970" by simp
  ultimately have "\<not> pow_overflows (x ^ 2)" by (simp add: pow_overflows_def)
  then show ?thesis by (simp add: fct_py_def py_pow_def fct_def)
qed

subsection \<open>The grid\<close>

lemma linspace_length:
  "0 \<le> n \<Longrightarrow> linspace start stop n = Inr X \<Longrightarrow> length X = nat n"
  by (auto simp add: linspace_def Let_def split: if_splits)

lemma linspace_nth:
  assumes n: "2 \<le> n" and X: "linspace start stop n = Inr X" and i: "i < nat n"
  shows "X ! i = start + real i * ((stop - start) / real_of_int (n - 1))"
proof -
  define m where "m = nat n"
  have m: "2 \<le> m" "n = int m" using n by (simp_all add: m_def)
  have dv: "real_of_int (n - 1) = real (m - 1)" "real (m - 1) \<noteq> 0"
    using m by (simp_all add: of_nat_diff)
  have Xeq: "X = (map (\<lambda>i. real i * ((stop - start) / real_of_int (n - 1)) + start) [0..<m])
                  [m - 1 := stop]"
    using X n by (simp add: linspace_def Let_def m_def)
  show ?thesis
  proof (cases "i = m - 1")
    case True
    have "X ! i = stop" using True m by (simp add: Xeq)
    also have "stop = start + real (m - 1) * ((stop - start) / real (m - 1))"
      using dv(2) by simp
    finally show ?thesis using True dv(1) by simp
  next
    case False
    then show ?thesis using i by (simp add: Xeq m_def)
  qed
qed

lemma linspace_hd:
  assumes "2 \<le> n" "linspace start stop n = Inr X"
  shows "hd X = start"
proof -
  have "length X = nat n" using assms by (simp add: linspace_length)
  then have "X \<noteq> []" using assms(1) by auto
  then have "hd X = X ! 0" by (simp add: hd_conv_nth)
  then show ?thesis using linspace_nth [OF assms, of 0] assms(1) by simp
qed




lemma grid_exists: "\<exists>X. linspace 0 1 100 = Inr X"
  by (simp add: linspace_def Let_def)

lemma grid_nonempty: "linspace 0 1 100 = Inr X \<Longrightarrow> X \<noteq> []"
  using linspace_length [of 100 0 1 X] by auto

subsection \<open>Runs\<close>

lemma exec_append_ok:
  "exec L xs s = (None, s') \<Longrightarrow> exec L (xs @ ys) s = exec L ys s'"
  by (induction xs arbitrary: s) (auto split: prod.splits option.splits)

lemma exec_append_raise:
  "exec L xs s = (Some e, s') \<Longrightarrow> exec L (xs @ ys) s = (Some e, s')"
  by (induction xs arbitrary: s) (auto split: prod.splits option.splits)

lemma cells12: "exec L (map snd cell1 @ map snd cell2) s = (None, after2 s)"
  by (simp add: cell1_def cell2_def s_import_def s_lb_def s_ub_def s_nplots_def
      s_def_fct_def s_Fct_def attempt_def imported_name_def lookup_def Fct_def after2_def
      all_names_def)

lemma cell3_run:
  assumes X: "linspace 0 1 100 = Inr X"
  shows "exec L (map snd cell3) (after2 s) =
    (fst (lib_run L (take 5 (program_calls X))),
     (after2 s)\<lparr>g_X := (if raised L PltFigure = None then Some X else g_X s),
        calls := calls s @ snd (lib_run L (take 5 (program_calls X)))\<rparr>)"
  using X grid_nonempty [OF X]
  by (auto simp add: cell3_def s_figure_def s_X_def s_plot_def s_xlabel_def s_ylabel_def
      s_show_def plt_invoke_def attempt_def imported_name_def lookup_def Fct_def after2_def
      all_names_def vectorize_def program_calls_def raised_def Let_def split: sum.splits)

lemma cell4_run:
  "exec L (map snd cell4) ((after2 s)\<lparr>g_X := gx, calls := cs\<rparr>) =
    (raised L (Quad fct 0 1),
     (after2 s)\<lparr>g_X := gx,
        g_reference := (case quad L fct 0 1 of Inr r \<Rightarrow> Some (fst r) | Inl _ \<Rightarrow> g_reference s),
        calls := cs @ [Quad fct 0 1],
        stdout := (case quad L fct 0 1 of
                     Inr r \<Rightarrow> stdout s @ [(''Integral by reference method:'', fst r)]
                   | Inl _ \<Rightarrow> stdout s)\<rparr>)"
  by (auto simp add: cell4_def s_reference_def s_print_def
      attempt_def imported_name_def lookup_def after2_def all_names_def
      raised_def Let_def split: sum.splits)

lemma run_all_cells:
  "run_all L s = exec L (map snd cell3 @ map snd cell4) (after2 s)"
proof -
  have "run_all L s = exec L ((map snd cell1 @ map snd cell2) @ (map snd cell3 @ map snd cell4)) s"
    by (simp add: run_all_def notebook_def cell5_def)
  then show ?thesis
    by (simp only: exec_append_ok [OF cells12])
qed

lemma run_all_char:
  assumes X: "linspace 0 1 100 = Inr X"
  shows "run_all L s =
    (fst (lib_run L (program_calls X)),
     (after2 s)\<lparr>g_X := (if raised L PltFigure = None then Some X else g_X s),
        g_reference := (case completed L X of Some v \<Rightarrow> Some v | None \<Rightarrow> g_reference s),
        calls := calls s @ snd (lib_run L (program_calls X)),
        stdout := (case completed L X of
                     Some v \<Rightarrow> stdout s @ [(''Integral by reference method:'', v)]
                   | None \<Rightarrow> stdout s)\<rparr>)"
proof (cases "fst (lib_run L (take 5 (program_calls X)))")
  case None
  then have fig: "raised L PltFigure = None"
    by (auto simp add: program_calls_def split: option.splits)
  from None have full: "lib_run L (program_calls X) =
      (raised L (Quad fct 0 1), snd (lib_run L (take 5 (program_calls X))) @ [Quad fct 0 1])"
    by (auto simp add: program_calls_def split: option.splits)
  have cmp: "completed L X = (case quad L fct 0 1 of Inr r \<Rightarrow> Some (fst r) | Inl _ \<Rightarrow> None)"
    using None by (simp add: completed_def)
  have c3: "exec L (map snd cell3) (after2 s) =
      (None, (after2 s)\<lparr>g_X := Some X,
         calls := calls s @ snd (lib_run L (take 5 (program_calls X)))\<rparr>)"
    using cell3_run [OF X, of L s] None fig by simp
  show ?thesis
    unfolding run_all_cells exec_append_ok [OF c3] cell4_run
    using fig by (simp add: full cmp split: sum.splits)
next
  case (Some e)
  then have full: "lib_run L (program_calls X) = lib_run L (take 5 (program_calls X))"
    by (auto simp add: program_calls_def split: option.splits)
  have cmp: "completed L X = None"
    using Some by (simp add: completed_def)
  have c3: "exec L (map snd cell3) (after2 s) =
      (Some e, (after2 s)\<lparr>g_X := (if raised L PltFigure = None then Some X else g_X s),
         calls := calls s @ snd (lib_run L (take 5 (program_calls X)))\<rparr>)"
    using cell3_run [OF X, of L s] Some by simp
  show ?thesis
    unfolding run_all_cells exec_append_raise [OF c3]
    using Some by (simp add: full cmp after2_def)
qed

lemma new_calls_char:
  "linspace 0 1 100 = Inr X \<Longrightarrow> new_calls L s = snd (lib_run L (program_calls X))"
  by (simp add: new_calls_def run_all_char after2_def)

subsection \<open>Sequential library calls\<close>

lemma lib_run_all_ok:
  "(\<And>c. c \<in> set cs \<Longrightarrow> raised L c = None) \<Longrightarrow> lib_run L cs = (None, cs)"
  by (induction cs) (auto simp add: prod_eq_iff)

lemma lib_run_subset: "set (snd (lib_run L cs)) \<subseteq> set cs"
  by (induction cs) (auto split: option.splits)

lemma lib_run_member_raises:
  "distinct cs \<Longrightarrow> c \<in> set (snd (lib_run L cs)) \<Longrightarrow> raised L c = Some e \<Longrightarrow>
     fst (lib_run L cs) = Some e \<and> last (snd (lib_run L cs)) = c"
proof (induction cs)
  case Nil
  then show ?case by simp
next
  case (Cons a cs)
  show ?case
  proof (cases "raised L a")
    case None
    with Cons.prems have "c \<in> set (snd (lib_run L cs))" by auto
    with Cons None show ?thesis by auto
  next
    case (Some e')
    with Cons.prems show ?thesis by auto
  qed
qed

lemma lib_run_raise_last:
  "fst (lib_run L cs) = Some e \<Longrightarrow>
     snd (lib_run L cs) \<noteq> [] \<and> raised L (last (snd (lib_run L cs))) = Some e"
  by (induction cs) (auto split: option.splits)


lemma lib_run_distinct: "distinct cs \<Longrightarrow> distinct (snd (lib_run L cs))"
  using lib_run_subset [of L] by (induction cs) (auto split: option.splits)

lemma count_list_distinct: "distinct xs \<Longrightarrow> x \<in> set xs \<Longrightarrow> count_list xs x = 1"
  by (induction xs) auto

lemma program_calls_distinct: "distinct (program_calls X)"
  by (simp add: program_calls_def)


lemma plots_ok_run:
  assumes "\<And>c. \<exists>h. plt L c = Inr h"
  shows "lib_run L (program_calls X) =
    (raised L (Quad fct 0 1), program_calls X)"
proof -
  have ok: "raised L c = None" if "\<not> is_quad c" for c
    using that assms [of c] by (cases c) (auto simp add: raised_def)
  have "lib_run L (take 5 (program_calls X)) = (None, take 5 (program_calls X))"
    by (rule lib_run_all_ok) (auto simp add: program_calls_def ok)
  then show ?thesis
    by (simp add: program_calls_def ok split: option.splits)
qed

subsection \<open>Frames\<close>

lemma cell3_keeps: "keeps_definitions s (snd (run_cell L cell3 s))"
  by (auto simp add: keeps_definitions_def run_cell_def cell3_def s_figure_def s_X_def
      s_plot_def s_xlabel_def s_ylabel_def s_show_def plt_invoke_def attempt_def Let_def
      split: sum.splits prod.splits option.splits)

lemma cell3_keeps_reference: "g_reference (snd (run_cell L cell3 s)) = g_reference s"
  by (auto simp add: run_cell_def cell3_def s_figure_def s_X_def
      s_plot_def s_xlabel_def s_ylabel_def s_show_def plt_invoke_def attempt_def Let_def
      split: sum.splits prod.splits option.splits)

lemma cell4_keeps:
  "keeps_definitions s (snd (run_cell L cell4 s)) \<and> g_X (snd (run_cell L cell4 s)) = g_X s"
  by (auto simp add: keeps_definitions_def run_cell_def cell4_def s_reference_def s_print_def
      attempt_def Let_def split: sum.splits prod.splits option.splits)

lemma cell4_reads:
  "keeps_definitions s t \<Longrightarrow> g_reference t = g_reference s \<Longrightarrow>
     g_reference (snd (run_cell L cell4 t)) = g_reference (snd (run_cell L cell4 s))"
  by (auto simp add: keeps_definitions_def run_cell_def cell4_def s_reference_def s_print_def
      attempt_def imported_name_def lookup_def Let_def split: sum.splits prod.splits option.splits)

lemma keeps_trans:
  "keeps_definitions s t \<Longrightarrow> keeps_definitions t u \<Longrightarrow> keeps_definitions s u"
  by (simp add: keeps_definitions_def)

lemma lib_run_cong:
  "(\<And>c. raised L' c = raised L c) \<Longrightarrow> lib_run L' cs = lib_run L cs"
  by (induction cs) (auto split: option.splits)

lemma printed_char:
  "linspace 0 1 100 = Inr X \<Longrightarrow>
     printed L s = (case completed L X of
                      Some v \<Rightarrow> [(''Integral by reference method:'', v)] | None \<Rightarrow> [])"
  by (simp add: printed_def run_all_char after2_def split: option.splits)


lemma raised_run:
  assumes X: "linspace 0 1 100 = Inr X" and ex: "fst (run_all L s) = Some e"
  shows "completed L X = None"
proof (cases "fst (lib_run L (take 5 (program_calls X)))")
  case None
  with ex have "raised L (Quad fct 0 1) = Some e"
    by (auto simp add: run_all_char [OF X] program_calls_def split: option.splits)
  then show ?thesis
    by (auto simp add: completed_def raised_def split: sum.splits)
next
  case (Some e')
  then show ?thesis by (simp add: completed_def)
qed

lemma plotted_member:
  "y \<in> set (plotted cs) \<Longrightarrow> \<exists>xs ys. PltPlot xs ys \<in> set cs \<and> y \<in> set ys"
  by (induction cs rule: plotted.induct) auto

section \<open>The claims\<close>






text \<open>
  Claim C5. From any state, the plotting cell and the quadrature cell leave the names
  bound by cells 1 and 2 (\<open>lb\<close>, \<open>ub\<close>, \<open>nplots\<close>, \<open>fct\<close>, \<open>Fct\<close> and the imports) as
  they were, and the quadrature cell leaves \<open>X\<close> as it was; no two statements of the
  notebook bind the same name. The objects the plotting calls return are used nowhere,
  and the value bound to \<open>reference\<close> by the quadrature cell is the same whether or not
  the plotting cell ran before it.
\<close>

theorem definitions_not_rebound:
  "keeps_definitions s (snd (run_cell L cell3 s))
   \<and> keeps_definitions s (snd (run_cell L cell4 s))
   \<and> keeps_definitions s (snd (run_cell L cell4 (snd (run_cell L cell3 s))))
   \<and> g_X (snd (run_cell L cell4 s)) = g_X s
   \<and> distinct (bound_names (map fst (concat notebook)))
   \<and> run_all (L\<lparr>plt := \<lambda>c. map_sum id h (plt L c)\<rparr>) s = run_all L s
   \<and> g_reference (snd (run_cell L cell4 (snd (run_cell L cell3 s))))
       = g_reference (snd (run_cell L cell4 s))"
proof -
  obtain X where X: "linspace 0 1 100 = Inr X" using grid_exists by blast
  let ?L' = "L\<lparr>plt := \<lambda>c. map_sum id h (plt L c)\<rparr>"
  have same: "raised ?L' c = raised L c" for c
    by (cases c) (simp_all add: raised_def map_sum_def split: sum.splits)
  have "keeps_definitions s (snd (run_cell L cell4 (snd (run_cell L cell3 s))))"
    using cell3_keeps cell4_keeps by (blast intro: keeps_trans)
  moreover have "distinct (bound_names (map fst (concat notebook)))"
    by (simp add: notebook_def cell1_def cell2_def cell3_def cell4_def cell5_def)
  moreover have "run_all ?L' s = run_all L s"
    by (simp add: run_all_char [OF X] lib_run_cong [of ?L' L, OF same] same completed_def)
  moreover have "g_reference (snd (run_cell L cell4 (snd (run_cell L cell3 s))))
       = g_reference (snd (run_cell L cell4 s))"
    by (rule cell4_reads [OF cell3_keeps cell3_keeps_reference])
  ultimately show ?thesis
    using cell3_keeps [of s L] cell4_keeps [of s L] by simp
qed

text \<open>
  Claim C6. When a library call \<open>c\<close> that a run makes raises \<open>e\<close>, the run ends with
  exactly \<open>e\<close>, the call \<open>c\<close> is the last one the run makes, and the run makes it once.
  Conversely a run ends with an exception only when its last library call raised that
  exception, and then it prints nothing.
\<close>

theorem library_exception_propagates:
  "(c \<in> set (new_calls L s) \<and> raised L c = Some e \<longrightarrow>
      fst (run_all L s) = Some e \<and> last (new_calls L s) = c
      \<and> count_list (new_calls L s) c = 1)
   \<and> (fst (run_all L s) = Some e \<longrightarrow>
      new_calls L s \<noteq> [] \<and> raised L (last (new_calls L s)) = Some e
      \<and> printed L s = [])"
proof -
  obtain X where X: "linspace 0 1 100 = Inr X" using grid_exists by blast
  have calls: "new_calls L s = snd (lib_run L (program_calls X))"
    by (rule new_calls_char [OF X])
  have exn: "fst (run_all L s) = fst (lib_run L (program_calls X))"
    by (simp add: run_all_char [OF X])
  have d: "distinct (new_calls L s)"
    unfolding calls by (rule lib_run_distinct [OF program_calls_distinct])
  have silent: "printed L s = []" if "fst (run_all L s) = Some e"
    using that raised_run [OF X, of L s e] by (simp add: printed_char [OF X])
  show ?thesis
    using lib_run_member_raises [OF program_calls_distinct, of c L X e]
      lib_run_raise_last [of L "program_calls X" e] count_list_distinct [OF d, of c]
      silent
    unfolding calls exn by blast
qed

theorem library_exception_propagates_witness:
  "Quad fct 0 1 \<in> set (new_calls \<lparr>plt = \<lambda>c. Inr (PObj 0),
        quad = \<lambda>f a b. Inl (LibraryError ''quadpack.error'')\<rparr> fresh)
   \<and> raised \<lparr>plt = \<lambda>c. Inr (PObj 0), quad = \<lambda>f a b. Inl (LibraryError ''quadpack.error'')\<rparr>
        (Quad fct 0 1) = Some (LibraryError ''quadpack.error'')
   \<and> fst (run_all \<lparr>plt = \<lambda>c. Inr (PObj 0),
        quad = \<lambda>f a b. Inl (LibraryError ''quadpack.error'')\<rparr> fresh)
       = Some (LibraryError ''quadpack.error'')
   \<and> last (new_calls \<lparr>plt = \<lambda>c. Inr (PObj 0),
        quad = \<lambda>f a b. Inl (LibraryError ''quadpack.error'')\<rparr> fresh) = Quad fct 0 1
   \<and> count_list (new_calls \<lparr>plt = \<lambda>c. Inr (PObj 0),
        quad = \<lambda>f a b. Inl (LibraryError ''quadpack.error'')\<rparr> fresh) (Quad fct 0 1) = 1"
proof -
  let ?L = "\<lparr>plt = \<lambda>c. Inr (PObj 0), quad = \<lambda>f a b. Inl (LibraryError ''quadpack.error'')\<rparr>"
  obtain X where X: "linspace 0 1 100 = Inr X" using grid_exists by blast
  have plots: "\<And>c. \<exists>h. plt ?L c = Inr h" by simp
  have r: "raised ?L (Quad fct 0 1) = Some (LibraryError ''quadpack.error'')"
    by (simp add: raised_def)
  have m: "Quad fct 0 1 \<in> set (new_calls ?L fresh)"
    unfolding new_calls_char [OF X] plots_ok_run [OF plots] by (simp add: program_calls_def)
  from library_exception_propagates [of "Quad fct 0 1" ?L fresh "LibraryError ''quadpack.error''"]
    m r show ?thesis by blast
qed



text \<open>
  Claim C8. \<open>fct x\<close> is nonnegative for every real \<open>x\<close>; every value a run plots is
  nonnegative; and the integral of \<open>fct\<close> over \<open>[lb, ub]\<close> with \<open>lb \<le> ub\<close>, the difference
  \<open>G ub - G lb\<close> of any antiderivative \<open>G\<close> of \<open>fct\<close>, is nonnegative.
\<close>

theorem fct_nonnegative:
  "0 \<le> fct x
   \<and> (\<forall>y \<in> set (plotted (new_calls L s)). 0 \<le> y)
   \<and> ((\<forall>t. (G has_real_derivative fct t) (at t)) \<and> lb \<le> ub \<longrightarrow> 0 \<le> G ub - G lb)"
proof -
  obtain X where X: "linspace 0 1 100 = Inr X" using grid_exists by blast
  have nonneg: "0 \<le> fct t" for t by (simp add: fct_def)
  have plot: "0 \<le> y" if "y \<in> set (plotted (new_calls L s))" for y
  proof -
    from plotted_member [OF that] obtain xs ys
      where "PltPlot xs ys \<in> set (new_calls L s)" and y: "y \<in> set ys"
      by blast
    then have "PltPlot xs ys \<in> set (program_calls X)"
      using lib_run_subset [of L "program_calls X"] by (auto simp add: new_calls_char [OF X])
    then have "ys = map fct X" by (simp add: program_calls_def)
    with y show ?thesis using nonneg by auto
  qed
  have integral: "0 \<le> G ub - G lb"
    if der: "\<forall>t. (G has_real_derivative fct t) (at t)" and le: "lb \<le> ub"
  proof -
    have "G lb \<le> G ub"
      by (rule DERIV_nonneg_imp_nondecreasing [OF le]) (use der nonneg in blast)
    then show ?thesis by simp
  qed
  from nonneg plot integral show ?thesis by blast
qed

theorem fct_nonnegative_witness:
  "0 \<in> set (plotted (new_calls \<lparr>plt = \<lambda>c. Inr (PObj 0), quad = \<lambda>f a b. Inr (1 / 3, 0)\<rparr> fresh))
   \<and> (0::real) \<le> 0
   \<and> (\<forall>t. ((\<lambda>x. x ^ 3 / 3) has_real_derivative fct t) (at t))
   \<and> (0::real) \<le> 1
   \<and> (0::real) \<le> (\<lambda>x. x ^ 3 / 3) 1 - (\<lambda>x. x ^ 3 / 3) 0"
proof -
  let ?L = "\<lparr>plt = \<lambda>c. Inr (PObj 0), quad = \<lambda>f a b. Inr (1 / 3, 0)\<rparr>"
  obtain X where X: "linspace 0 1 100 = Inr X" using grid_exists by blast
  have plots: "\<And>c. \<exists>h. plt ?L c = Inr h" by simp
  have "hd X = 0" by (rule linspace_hd [OF _ X]) simp
  moreover have "X \<noteq> []" by (rule grid_nonempty [OF X])
  ultimately have "0 \<in> set X" by (metis hd_in_set)
  then have "fct 0 \<in> set (map fct X)" by (rule imageI [of 0 "set X" fct, folded set_map])
  then have m: "0 \<in> set (plotted (new_calls ?L fresh))"
    unfolding new_calls_char [OF X] plots_ok_run [OF plots]
    by (simp add: program_calls_def fct_def)
  have der: "\<forall>t. ((\<lambda>x::real. x ^ 3 / 3) has_real_derivative fct t) (at t)"
    by (auto intro!: derivative_eq_intros simp add: fct_def)
  from fct_nonnegative [of 0 ?L fresh "\<lambda>x. x ^ 3 / 3" 0 1] m der show ?thesis
    by simp
qed






end
